theory Spec2Isabelle
  imports Main "HOL-Library.Word" "HOL-Library.Sublist"
begin

unbundle bit_operations_syntax

section \<open>JavaScript primitives used by the plugin\<close>

text \<open>
  A JavaScript string is a sequence of UTF-16 code units. The model uses \<open>string\<close>
  (\<open>char list\<close>), each \<open>char\<close> standing for one code unit in the range U+0000..U+00FF;
  \<open>length\<close> is then the \<open>.length\<close> of the JavaScript string.  Bytes are \<open>8 word\<close>.
\<close>

type_synonym byte = "8 word"

definition CRLF :: string where
  "CRLF = [CHR 0x0D, CHR 0x0A]"

definition DQ :: string where
  "DQ = [CHR 0x22]"

definition LF :: string where
  "LF = [CHR 0x0A]"

text \<open>
  \<open>new TextEncoder().encode(s)\<close>: UTF-8.  A code unit below 0x80 is one byte, a code
  unit in 0x80..0xFF is the two bytes \<open>110000xx 10xxxxxx\<close>.
\<close>

definition utf8_unit :: "char \<Rightarrow> byte list" where
  "utf8_unit c =
     (let w = (of_char c :: byte)
      in if w < 0x80 then [w] else [0xC0 OR drop_bit 6 w, 0x80 OR (w AND 0x3F)])"

definition TextEncoder_encode :: "string \<Rightarrow> byte list" where
  "TextEncoder_encode s = concat (map utf8_unit s)"

text \<open>
  \<open>s.split(sep)\<close> for a separator of one character (the plugin only splits on
  \<open>"."\<close> and \<open>","\<close>): the pieces between the separators, empty pieces kept; the
  result is never the empty array.
\<close>

fun split_js :: "char \<Rightarrow> string \<Rightarrow> string list" where
  "split_js sep [] = [[]]"
| "split_js sep (c # cs) =
     (if c = sep then [] # split_js sep cs
      else (let r = split_js sep cs in (c # hd r) # tl r))"

text \<open>\<open>xs.pop()\<close> as used for its value: the last element, \<open>undefined\<close> on the empty array.\<close>

definition pop :: "'a list \<Rightarrow> 'a option" where
  "pop xs = (if xs = [] then None else Some (last xs))"

text \<open>\<open>xs.includes(x)\<close>.\<close>

definition includes_js :: "'a list \<Rightarrow> 'a \<Rightarrow> bool" where
  "includes_js xs x = (x \<in> set xs)"

text \<open>
  \<open>s.indexOf(pat)\<close>: the least position at which \<open>pat\<close> starts in \<open>s\<close>, and \<open>-1\<close> when
  there is none.
\<close>

fun indexOf_from :: "int \<Rightarrow> string \<Rightarrow> string \<Rightarrow> int" where
  "indexOf_from k [] pat = (if pat = [] then k else - 1)"
| "indexOf_from k (c # cs) pat =
     (if prefix pat (c # cs) then k else indexOf_from (k + 1) cs pat)"

definition indexOf :: "string \<Rightarrow> string \<Rightarrow> int" where
  "indexOf s pat = indexOf_from 0 s pat"

text \<open>
  \<open>s.slice(start, end)\<close>: a negative index counts from the end, every index is clamped
  to \<open>0..length\<close>, an absent \<open>end\<close> is the length.
\<close>

definition clamp_index :: "nat \<Rightarrow> int \<Rightarrow> nat" where
  "clamp_index len i = (if i < 0 then nat (max (int len + i) 0) else min (nat i) len)"

definition slice :: "string \<Rightarrow> int \<Rightarrow> int option \<Rightarrow> string" where
  "slice s start end_opt =
     (let len = length s;
          from = clamp_index len start;
          to = (case end_opt of None \<Rightarrow> len | Some e \<Rightarrow> clamp_index len e)
      in take (to - from) (drop from s))"

text \<open>
  \<open>s.trim()\<close>: white space and line terminators removed at both ends.  Among the code
  units up to U+00FF these are TAB, LF, VT, FF, CR, SPACE and NBSP.
\<close>

definition is_white_space :: "char \<Rightarrow> bool" where
  "is_white_space c =
     (c = CHR 0x09 \<or> c = CHR 0x0A \<or> c = CHR 0x0B \<or> c = CHR 0x0C \<or> c = CHR 0x0D
      \<or> c = CHR 0x20 \<or> c = CHR 0xA0)"

definition trim :: "string \<Rightarrow> string" where
  "trim s = rev (dropWhile is_white_space (rev (dropWhile is_white_space s)))"

text \<open>\<open>xs.join(sep)\<close> on an array of strings.\<close>

fun join :: "string \<Rightarrow> string list \<Rightarrow> string" where
  "join sep [] = []"
| "join sep [x] = x"
| "join sep (x # y # ys) = x @ sep @ join sep (y # ys)"

section \<open>transcribe.ts\<close>

text \<open>
  The ten fields of \<open>TranscriptionSegment\<close> and the three of \<open>TranscriptionResult\<close>.
  The plugin never computes with the numbers, so their type is a parameter.  The
  fields \<open>id\<close>, \<open>start\<close>, \<open>end\<close> and \<open>text\<close> carry a suffix.
\<close>

record 'n TranscriptionSegment =
  id_seg :: 'n
  seek :: 'n
  start_seg :: 'n
  end_seg :: 'n
  text_seg :: string
  tokens :: "'n list"
  temperature :: 'n
  avg_logprob :: 'n
  compression_ratio :: 'n
  no_speech_prob :: 'n

record 'n TranscriptionResult =
  text_res :: string
  segments :: "'n TranscriptionSegment list"
  language :: string

record TranscriptionSettings =
  timestamps :: bool
  transcribeFileExtensions :: string
  whisperASRUrl :: string
  debug :: bool

definition DEFAULT_SETTINGS :: TranscriptionSettings where
  "DEFAULT_SETTINGS =
     \<lparr> timestamps = False,
       transcribeFileExtensions = ''mp3,wav,webm'',
       whisperASRUrl = ''http://localhost:9000'',
       debug = False \<rparr>"

record RequestUrlParam =
  method_param :: string
  url :: string
  contentType :: string
  body :: "byte list"

text \<open>
  \<open>getTranscriptionWhisperASR\<close> up to the call of \<open>requestUrl\<close>.  \<open>randomString\<close> lives in
  \<open>src/utils\<close>; its result \<open>rnd\<close> is a parameter, and so are the bytes \<open>data\<close> that
  \<open>vault.readBinary(file)\<close> returned.
\<close>

definition randomBoundaryString :: "string \<Rightarrow> string" where
  "randomBoundaryString rnd = ''Boundary'' @ rnd"

definition pre_string :: "string \<Rightarrow> string" where
  "pre_string rnd =
     ''------'' @ randomBoundaryString rnd @ CRLF
     @ ''Content-Disposition: form-data; name='' @ DQ @ ''audio_file'' @ DQ
     @ ''; filename='' @ DQ @ ''blob'' @ DQ @ CRLF
     @ ''Content-Type: '' @ DQ @ ''application/octet-stream'' @ DQ @ CRLF @ CRLF"

definition post_string :: "string \<Rightarrow> string" where
  "post_string rnd = CRLF @ ''------'' @ randomBoundaryString rnd @ ''--''"

definition concatenated :: "string \<Rightarrow> byte list \<Rightarrow> byte list" where
  "concatenated rnd data =
     TextEncoder_encode (pre_string rnd) @ data @ TextEncoder_encode (post_string rnd)"

definition getTranscriptionWhisperASR_options ::
  "TranscriptionSettings \<Rightarrow> string \<Rightarrow> byte list \<Rightarrow> RequestUrlParam" where
  "getTranscriptionWhisperASR_options settings rnd data =
     \<lparr> method_param = ''POST'',
       url = whisperASRUrl settings @ ''/asr?task=transcribe&language=en&output=json'',
       contentType = ''multipart/form-data; boundary=----'' @ randomBoundaryString rnd,
       body = concatenated rnd data \<rparr>"

section \<open>main.ts: the command "Transcribe all audio files in view"\<close>

text \<open>
  What the plugin reads of a \<open>TFile\<close>: its vault path, its file name and the path of
  its parent folder.  \<open>vault.getAbstractFileByPath\<close> answers with a file, a folder or
  \<open>null\<close>.
\<close>

record TFile =
  path :: string
  name :: string
  parent_path :: string

datatype TAbstractFile = File TFile | Folder string

text \<open>\<open>this.debug(message)\<close>: the console receives the message in debug mode only.\<close>

definition debug_log :: "TranscriptionSettings \<Rightarrow> string \<Rightarrow> string list \<Rightarrow> string list" where
  "debug_log settings message console = (if debug settings then console @ [message] else console)"

text \<open>
  The first loop of \<open>editorCallback\<close>, over \<open>filesLinked\<close>.  The state of the loop is the
  array \<open>filesToTranscribe\<close> and the console.  The test of the \<open>if\<close> is
  \<open>extension_skipped\<close>.
\<close>

definition extension_skipped :: "TranscriptionSettings \<Rightarrow> string option \<Rightarrow> bool" where
  "extension_skipped settings linkedFileExtension =
     (case linkedFileExtension of
        None \<Rightarrow> True
      | Some e \<Rightarrow> \<not> includes_js (split_js CHR '','' (transcribeFileExtensions settings)) e)"

definition collect_step ::
  "TranscriptionSettings \<Rightarrow> (string \<Rightarrow> TAbstractFile option) \<Rightarrow> TFile list \<times> string list
     \<Rightarrow> string \<Rightarrow> TFile list \<times> string list" where
  "collect_step settings getAbstractFileByPath st linkedFilePath =
     (let filesToTranscribe = fst st; console = snd st;
          linkedFileExtension = pop (split_js CHR ''.'' linkedFilePath)
      in if extension_skipped settings linkedFileExtension
         then (filesToTranscribe,
               debug_log settings
                 (''Skipping '' @ linkedFilePath
                   @ '' because the file extension is not in the list of transcribable file extensions'')
                 console)
         else (case getAbstractFileByPath linkedFilePath of
                 Some (File linkedFile) \<Rightarrow> (filesToTranscribe @ [linkedFile], console)
               | _ \<Rightarrow> (filesToTranscribe,
                        debug_log settings (''Could not find file '' @ linkedFilePath) console)))"

definition collect ::
  "TranscriptionSettings \<Rightarrow> (string \<Rightarrow> TAbstractFile option) \<Rightarrow> string list
     \<Rightarrow> TFile list \<times> string list" where
  "collect settings getAbstractFileByPath filesLinked =
     foldl (collect_step settings getAbstractFileByPath) ([], []) filesLinked"

definition filesToTranscribe ::
  "TranscriptionSettings \<Rightarrow> (string \<Rightarrow> TAbstractFile option) \<Rightarrow> string list \<Rightarrow> TFile list" where
  "filesToTranscribe settings getAbstractFileByPath filesLinked =
     fst (collect settings getAbstractFileByPath filesLinked)"

text \<open>
  The continuation of one transcription.  What the host answers is a parameter: the
  text \<open>vault.read\<close> resolves to (or the reason it rejects with, as string
  concatenation renders it), the link text of \<open>metadataCache.fileToLinktext\<close>, whether
  \<open>vault.modify\<close> and \<open>vault.createBinary\<close> reject, and \<open>JSON.stringify\<close>.
\<close>

record 'n host =
  vault_read :: "string + string"
  fileToLinktext :: "TFile \<Rightarrow> string \<Rightarrow> string"
  vault_modify :: "string option"
  vault_createBinary :: "string option"
  JSON_stringify :: "'n TranscriptionResult \<Rightarrow> string"

text \<open>The calls the continuation makes, in order.\<close>

datatype effect =
    Notice string
  | Console string
  | Modify string string
  | CreateBinary string "byte list"

definition fileLinkStringTagged :: "string \<Rightarrow> string" where
  "fileLinkStringTagged fileLinkString = ''[['' @ fileLinkString @ '']]''"

definition startReplacementIndex :: "string \<Rightarrow> string \<Rightarrow> int" where
  "startReplacementIndex fileText tagged = indexOf fileText tagged + int (length tagged)"

definition segments_text :: "'n TranscriptionResult \<Rightarrow> string" where
  "segments_text transcription =
     join LF (map (\<lambda>segment. trim (text_seg segment)) (segments transcription))"

definition splice :: "string \<Rightarrow> int \<Rightarrow> string \<Rightarrow> string" where
  "splice fileText i segs =
     concat [slice fileText 0 (Some i), LF @ segs, slice fileText i None]"

text \<open>
  \<open>`${fileLinkString.split(".").pop()}.json`\<close>; a template renders \<open>undefined\<close> by its
  name.
\<close>

definition fileLinkStringJson :: "string \<Rightarrow> string" where
  "fileLinkStringJson fileLinkString =
     (case pop (split_js CHR ''.'' fileLinkString) of
        None \<Rightarrow> ''undefined''
      | Some s \<Rightarrow> s) @ ''.json''"

definition sidecar_path :: "TFile \<Rightarrow> string \<Rightarrow> string" where
  "sidecar_path fileToTranscribe fileLinkString =
     parent_path fileToTranscribe @ ''/'' @ fileLinkStringJson fileLinkString"

text \<open>
  The \<open>.then\<close> callback: the calls made, and the reason of the rejection when an
  awaited host call rejects (the rest of the callback is then not run).
\<close>

definition onFulfilled ::
  "TranscriptionSettings \<Rightarrow> 'n host \<Rightarrow> TFile \<Rightarrow> TFile \<Rightarrow> 'n TranscriptionResult
     \<Rightarrow> effect list \<times> string option" where
  "onFulfilled settings h view_file fileToTranscribe transcription =
     (let log1 = (if debug settings then [Console ''[object Object]''] else [])
      in case vault_read h of
           Inl reason \<Rightarrow> (log1, Some reason)
         | Inr fileText \<Rightarrow>
             (let fileLinkString = fileToLinktext h fileToTranscribe (path view_file);
                  tagged = fileLinkStringTagged fileLinkString;
                  log2 = (if debug settings then [Console fileLinkString] else []);
                  i = startReplacementIndex fileText tagged;
                  segs = segments_text transcription;
                  fileText' = splice fileText i segs;
                  modify = [Modify (path view_file) fileText']
              in case vault_modify h of
                   Some reason \<Rightarrow> (log1 @ log2 @ modify, Some reason)
                 | None \<Rightarrow>
                     (log1 @ log2 @ modify
                        @ [CreateBinary (sidecar_path fileToTranscribe fileLinkString)
                             (TextEncoder_encode (JSON_stringify h transcription))],
                      vault_createBinary h)))"

text \<open>The \<open>.catch\<close> callback: one notice.\<close>

definition onRejected :: "TranscriptionSettings \<Rightarrow> TFile \<Rightarrow> string \<Rightarrow> effect" where
  "onRejected settings fileToTranscribe error =
     (if debug settings
      then Notice (''Error transcribing file '' @ name fileToTranscribe @ '': '' @ error)
      else Notice ''Error transcribing file, enable debug mode to see more'')"

text \<open>
  \<open>getTranscription(file).then(...).catch(...)\<close> once the engine has settled with
  \<open>outcome\<close>: \<open>Inl\<close> the reason of a rejection, \<open>Inr\<close> the transcription.  The \<open>.catch\<close>
  also receives a rejection raised inside the \<open>.then\<close> callback.
\<close>

definition completion ::
  "TranscriptionSettings \<Rightarrow> 'n host \<Rightarrow> TFile \<Rightarrow> TFile \<Rightarrow> string + 'n TranscriptionResult
     \<Rightarrow> effect list" where
  "completion settings h view_file fileToTranscribe outcome =
     (case outcome of
        Inl error \<Rightarrow> [onRejected settings fileToTranscribe error]
      | Inr transcription \<Rightarrow>
          (case onFulfilled settings h view_file fileToTranscribe transcription of
             (calls, None) \<Rightarrow> calls
           | (calls, Some error) \<Rightarrow> calls @ [onRejected settings fileToTranscribe error]))"

section \<open>Reference notions and example inputs\<close>

text \<open>
  The notions of the specification that the theorems below compare the code with.
  \<open>spec_extension\<close> follows the words "the substring after the final \<open>.\<close>", absent
  when the path has no \<open>.\<close>; \<open>spec_candidates\<close> is "the subsequence of \<open>L\<close> whose
  extension equals some member of \<open>E\<close>"; \<open>spec_lastIndexOf\<close> is the position of "the
  citation's last occurrence" (\<open>-1\<close> when there is none).
\<close>

definition spec_extension :: "string \<Rightarrow> string option" where
  "spec_extension p =
     (if CHR ''.'' \<in> set p then Some (rev (takeWhile (\<lambda>c. c \<noteq> CHR ''.'') (rev p))) else None)"

definition spec_candidates :: "string list \<Rightarrow> string list \<Rightarrow> string list" where
  "spec_candidates E L =
     filter (\<lambda>p. case spec_extension p of None \<Rightarrow> False | Some e \<Rightarrow> e \<in> set E) L"

definition spec_lastIndexOf :: "string \<Rightarrow> string \<Rightarrow> int" where
  "spec_lastIndexOf s pat =
     (case filter (\<lambda>i. prefix pat (drop i s)) (rev [0..<Suc (length s)]) of
        [] \<Rightarrow> - 1
      | i # _ \<Rightarrow> int i)"

text \<open>
  The file handle that the second test of the loop (\<open>linkedFile instanceof TFile\<close>) lets
  through for a path.
\<close>

definition resolved_file :: "(string \<Rightarrow> TAbstractFile option) \<Rightarrow> string \<Rightarrow> TFile option" where
  "resolved_file getAbstractFileByPath p =
     (case getAbstractFileByPath p of Some (File f) \<Rightarrow> Some f | _ \<Rightarrow> None)"

text \<open>
  Example inputs: an audio file \<open>Files/Recording.webm\<close>, the note \<open>Notes/Monday.md\<close>
  that embeds it, a file named \<open>mp3\<close> in the vault root, a vault that holds one file, a
  host whose calls all resolve and that gives the file name as link text, and the
  transcription with the two segments \<open>"Hello"\<close> and \<open>" world "\<close>.
\<close>

definition recording :: TFile where
  "recording =
     \<lparr> path = ''Files/Recording.webm'', name = ''Recording.webm'', parent_path = ''Files'' \<rparr>"

definition monday :: TFile where
  "monday = \<lparr> path = ''Notes/Monday.md'', name = ''Monday.md'', parent_path = ''Notes'' \<rparr>"

definition mp3_file :: TFile where
  "mp3_file = \<lparr> path = ''mp3'', name = ''mp3'', parent_path = ''/'' \<rparr>"

definition vault_with :: "TFile \<Rightarrow> string \<Rightarrow> TAbstractFile option" where
  "vault_with f p = (if p = path f then Some (File f) else None)"

definition host_reading :: "string \<Rightarrow> int host" where
  "host_reading fileText =
     \<lparr> vault_read = Inr fileText,
       fileToLinktext = (\<lambda>f sourcePath. name f),
       vault_modify = None,
       vault_createBinary = None,
       JSON_stringify = (\<lambda>t. ''{}'') \<rparr>"

definition segment_with_text :: "string \<Rightarrow> int TranscriptionSegment" where
  "segment_with_text s =
     \<lparr> id_seg = 0, seek = 0, start_seg = 0, end_seg = 0, text_seg = s, tokens = [],
       temperature = 0, avg_logprob = 0, compression_ratio = 0, no_speech_prob = 0 \<rparr>"

definition hello_world :: "int TranscriptionResult" where
  "hello_world =
     \<lparr> text_res = ''Hello world'',
       segments = [segment_with_text ''Hello'', segment_with_text '' world ''],
       language = ''en'' \<rparr>"

section \<open>Facts about the primitives\<close>

lemma TextEncoder_encode_append:
  "TextEncoder_encode (s @ t) = TextEncoder_encode s @ TextEncoder_encode t"
  by (simp add: TextEncoder_encode_def)

lemma split_js_nonempty: "split_js sep s \<noteq> []"
  by (induction s) (auto simp: Let_def)

lemma split_js_no_sep: "sep \<notin> set s \<Longrightarrow> split_js sep s = [s]"
  by (induction s) (auto simp: Let_def)

lemma split_js_tl_empty: "tl (split_js sep s) = [] \<longleftrightarrow> sep \<notin> set s"
  by (induction s) (auto simp: Let_def split_js_nonempty)

lemma last_split_js: "last (split_js sep s) = rev (takeWhile (\<lambda>c. c \<noteq> sep) (rev s))"
proof (induction s)
  case Nil
  show ?case by simp
next
  case (Cons c cs)
  show ?case
  proof (cases "c = sep")
    case True
    then show ?thesis using Cons split_js_nonempty [of sep cs]
      by (simp add: takeWhile_append)
  next
    case False
    show ?thesis
    proof (cases "sep \<in> set cs")
      case True
      then have "tl (split_js sep cs) \<noteq> []" by (simp add: split_js_tl_empty)
      then have "last (split_js sep (c # cs)) = last (split_js sep cs)"
        using False split_js_nonempty [of sep cs]
        by (cases "split_js sep cs") (auto simp: Let_def)
      then show ?thesis using Cons True by (auto simp add: takeWhile_append)
    next
      case F2: False
      then show ?thesis using False by (simp add: split_js_no_sep takeWhile_append)
    qed
  qed
qed

lemma indexOf_from_found:
  "i \<le> length s \<Longrightarrow> prefix pat (drop i s) \<Longrightarrow> (\<forall>j<i. \<not> prefix pat (drop j s))
    \<Longrightarrow> indexOf_from k s pat = k + int i"
proof (induction s arbitrary: k i)
  case Nil
  then show ?case by simp
next
  case (Cons c cs)
  show ?case
  proof (cases i)
    case 0
    with Cons.prems show ?thesis by simp
  next
    case (Suc i')
    from Cons.prems(3) Suc have no0: "\<not> prefix pat (c # cs)" by force
    have a: "i' \<le> length cs" using Cons.prems(1) Suc by simp
    have b: "prefix pat (drop i' cs)" using Cons.prems(2) Suc by simp
    have c: "\<forall>j<i'. \<not> prefix pat (drop j cs)"
    proof (intro allI impI)
      fix j assume "j < i'"
      then have "Suc j < i" using Suc by simp
      with Cons.prems(3) have "\<not> prefix pat (drop (Suc j) (c # cs))" by blast
      then show "\<not> prefix pat (drop j cs)" by simp
    qed
    from Cons.IH [OF a b c, of "k + 1"] no0 Suc show ?thesis by simp
  qed
qed

lemma indexOf_from_absent:
  "(\<forall>j\<le>length s. \<not> prefix pat (drop j s)) \<Longrightarrow> indexOf_from k s pat = - 1"
proof (induction s arbitrary: k)
  case Nil
  then show ?case by auto
next
  case (Cons c cs)
  from Cons.prems have no0: "\<not> prefix pat (c # cs)" by force
  have "\<forall>j\<le>length cs. \<not> prefix pat (drop j cs)"
  proof (intro allI impI)
    fix j assume "j \<le> length cs"
    then have "Suc j \<le> length (c # cs)" by simp
    with Cons.prems have "\<not> prefix pat (drop (Suc j) (c # cs))" by blast
    then show "\<not> prefix pat (drop j cs)" by simp
  qed
  from Cons.IH [OF this, of "k + 1"] no0 show ?case by simp
qed

lemma sublist_iff_prefix_drop:
  "sublist pat s \<longleftrightarrow> (\<exists>j\<le>length s. prefix pat (drop j s))"
proof
  assume "sublist pat s"
  then obtain ps ss where "s = ps @ pat @ ss" by (auto simp: sublist_def)
  then have "length ps \<le> length s" "prefix pat (drop (length ps) s)" by simp_all
  then show "\<exists>j\<le>length s. prefix pat (drop j s)" by blast
next
  assume "\<exists>j\<le>length s. prefix pat (drop j s)"
  then obtain j zs where "j \<le> length s" "drop j s = pat @ zs" by (auto simp: prefix_def)
  then have "s = take j s @ pat @ zs" by (metis append_take_drop_id)
  then show "sublist pat s" unfolding sublist_def by blast
qed

lemma indexOf_absent: "\<not> sublist pat s \<Longrightarrow> indexOf s pat = - 1"
  unfolding indexOf_def by (rule indexOf_from_absent) (simp add: sublist_iff_prefix_drop)

lemma indexOf_first:
  assumes "s = pre @ pat @ post" and "\<forall>j<length pre. \<not> prefix pat (drop j s)"
  shows "indexOf s pat = int (length pre)"
proof -
  have "length pre \<le> length s" "prefix pat (drop (length pre) s)" using assms(1) by simp_all
  from indexOf_from_found [OF this assms(2), of 0] show ?thesis by (simp add: indexOf_def)
qed

lemma indexOf_from_range:
  "indexOf_from k s pat = - 1 \<or> (k \<le> indexOf_from k s pat \<and> indexOf_from k s pat \<le> k + int (length s))"
  by (induction k s pat rule: indexOf_from.induct) auto

lemma indexOf_present: "sublist pat s \<Longrightarrow> 0 \<le> indexOf s pat"
proof -
  assume "sublist pat s"
  then have ex: "\<exists>j. j \<le> length s \<and> prefix pat (drop j s)" by (simp add: sublist_iff_prefix_drop)
  define i where "i = (LEAST j. j \<le> length s \<and> prefix pat (drop j s))"
  have p: "i \<le> length s \<and> prefix pat (drop i s)" unfolding i_def using ex by (rule LeastI_ex)
  have m: "\<forall>j<i. \<not> prefix pat (drop j s)"
  proof (intro allI impI notI)
    fix j assume "j < i" "prefix pat (drop j s)"
    then have "j \<le> length s \<and> prefix pat (drop j s)" using p by simp
    then have "i \<le> j" unfolding i_def by (rule Least_le)
    with \<open>j < i\<close> show False by simp
  qed
  from indexOf_from_found [of i s pat 0] p m show ?thesis by (simp add: indexOf_def)
qed

lemma splice_nonneg:
  "0 \<le> i \<Longrightarrow> splice s i segs = take (nat i) s @ LF @ segs @ drop (nat i) s"
  by (simp add: splice_def slice_def clamp_index_def Let_def min_def)

subsection \<open>The loop over the links\<close>

lemma fst_collect_step:
  "fst (collect_step settings get st p) =
     fst st @ (case (if extension_skipped settings (pop (split_js CHR ''.'' p)) then None
                     else resolved_file get p) of
                 None \<Rightarrow> [] | Some f \<Rightarrow> [f])"
  by (simp add: collect_step_def resolved_file_def Let_def
      split: TAbstractFile.splits option.splits)

lemma collect_fold:
  "fst (foldl (collect_step settings get) st L) =
     fst st @ List.map_filter
       (\<lambda>p. if extension_skipped settings (pop (split_js CHR ''.'' p)) then None
            else resolved_file get p) L"
proof (induction L arbitrary: st)
  case Nil
  show ?case by simp
next
  case (Cons p ps)
  have "fst (foldl (collect_step settings get) st (p # ps)) =
          fst (foldl (collect_step settings get) (collect_step settings get st p) ps)"
    by simp
  also have "\<dots> = fst (collect_step settings get st p) @ List.map_filter
       (\<lambda>p. if extension_skipped settings (pop (split_js CHR ''.'' p)) then None
            else resolved_file get p) ps"
    by (rule Cons.IH)
  finally show ?case
    by (simp add: fst_collect_step split: option.splits)
qed

lemma filesToTranscribe_map_filter:
  "filesToTranscribe settings get L =
     List.map_filter
       (\<lambda>p. if extension_skipped settings (pop (split_js CHR ''.'' p)) then None
            else resolved_file get p) L"
  by (simp add: filesToTranscribe_def collect_def collect_fold)

lemma map_filter_filter:
  "List.map_filter f (filter P xs) = List.map_filter (\<lambda>x. if P x then f x else None) xs"
  by (induction xs) (simp_all split: option.split)

lemma map_filter_cong_set:
  "(\<And>x. x \<in> set xs \<Longrightarrow> f x = g x) \<Longrightarrow> List.map_filter f xs = List.map_filter g xs"
  by (induction xs) (simp_all split: option.split)

lemma pop_split_js: "pop (split_js sep s) = Some (rev (takeWhile (\<lambda>c. c \<noteq> sep) (rev s)))"
  by (simp add: pop_def split_js_nonempty last_split_js)

lemma candidate_selector:
  "CHR ''.'' \<in> set p \<Longrightarrow>
    (if extension_skipped settings (pop (split_js CHR ''.'' p)) then None
       else resolved_file get p)
    = (if (case spec_extension p of None \<Rightarrow> False
           | Some e \<Rightarrow> e \<in> set (split_js CHR '','' (transcribeFileExtensions settings)))
       then resolved_file get p else None)"
  by (simp add: extension_skipped_def pop_split_js spec_extension_def includes_js_def)

subsection \<open>The continuation of one transcription\<close>

lemma length_fileLinkStringTagged: "length (fileLinkStringTagged l) = length l + 4"
  by (simp add: fileLinkStringTagged_def)

lemma startReplacementIndex_first:
  assumes "fileText = pre @ cit @ post" and "\<forall>j<length pre. \<not> prefix cit (drop j fileText)"
  shows "startReplacementIndex fileText cit = int (length pre) + int (length cit)"
  using indexOf_first [OF assms] by (simp add: startReplacementIndex_def)

lemma splice_first:
  assumes "fileText = pre @ cit @ post" and "\<forall>j<length pre. \<not> prefix cit (drop j fileText)"
  shows "splice fileText (startReplacementIndex fileText cit) segs = pre @ cit @ LF @ segs @ post"
proof -
  define n where "n = length pre + length cit"
  have i: "startReplacementIndex fileText cit = int n"
    using startReplacementIndex_first [OF assms] by (simp add: n_def)
  have "splice fileText (int n) segs = take n fileText @ LF @ segs @ drop n fileText"
    using splice_nonneg [of "int n" fileText segs] by simp
  also have "\<dots> = pre @ cit @ LF @ segs @ post"
    using assms(1) by (simp add: n_def)
  finally show ?thesis using i by simp
qed

lemma startReplacementIndex_absent:
  "\<not> sublist cit fileText \<Longrightarrow> startReplacementIndex fileText cit = int (length cit) - 1"
  by (simp add: startReplacementIndex_def indexOf_absent)

lemma completion_modify:
  "vault_read h = Inr fileText \<Longrightarrow>
     Modify (path view_file)
       (splice fileText
          (startReplacementIndex fileText
             (fileLinkStringTagged (fileToLinktext h fileToTranscribe (path view_file))))
          (segments_text transcription))
     \<in> set (completion settings h view_file fileToTranscribe (Inr transcription))"
  by (simp add: completion_def onFulfilled_def Let_def split: option.splits)

lemma completion_no_notice:
  "vault_read h = Inr fileText \<Longrightarrow> vault_modify h = None \<Longrightarrow> vault_createBinary h = None \<Longrightarrow>
     Notice m \<notin> set (completion settings h view_file fileToTranscribe (Inr transcription))"
  by (simp add: completion_def onFulfilled_def Let_def)

subsection \<open>The example inputs evaluated\<close>

lemma segments_text_hello_world: "segments_text hello_world = ''Hello'' @ LF @ ''world''"
  by (simp add: segments_text_def hello_world_def segment_with_text_def trim_def
      is_white_space_def)

lemma startReplacementIndex_example:
  "startReplacementIndex ''See ![[Recording.webm]] today'' (fileLinkStringTagged ''Recording.webm'')
     = 23"
  by (simp add: startReplacementIndex_def indexOf_def fileLinkStringTagged_def)

lemma splice_example:
  "splice ''See ![[Recording.webm]] today'' 23 segs
     = ''See ![[Recording.webm]]'' @ LF @ segs @ '' today''"
  by (simp add: splice_nonneg)

lemma sidecar_path_example: "sidecar_path recording ''Recording.webm'' = ''Files/webm.json''"
  by (simp add: sidecar_path_def fileLinkStringJson_def pop_def recording_def Let_def)

section \<open>The request body\<close>

text \<open>
  C1.  For every file content \<open>data\<close> and every random part \<open>rnd\<close> of the boundary,
  with \<open>bnd\<close> the boundary parameter announced in the request's content type: the
  body is the encoded header block (the line \<open>--bnd\<close>, the Content-Disposition line
  for field \<open>audio_file\<close> with filename \<open>blob\<close>, the Content-Type line, an empty
  line), then \<open>data\<close> byte for byte, then the encoded terminator \<open>CRLF --bnd--\<close>.  The
  same \<open>bnd\<close>, behind the two leading hyphens, is the delimiter at both places.
\<close>

theorem whisperASR_body_framing:
  "(let opts = getTranscriptionWhisperASR_options settings rnd data;
        bnd = ''----Boundary'' @ rnd;
        header = ''--'' @ bnd @ CRLF
          @ ''Content-Disposition: form-data; name='' @ DQ @ ''audio_file'' @ DQ
          @ ''; filename='' @ DQ @ ''blob'' @ DQ @ CRLF
          @ ''Content-Type: '' @ DQ @ ''application/octet-stream'' @ DQ @ CRLF
          @ CRLF;
        trailer = CRLF @ ''--'' @ bnd @ ''--''
    in contentType opts = ''multipart/form-data; boundary='' @ bnd
       \<and> body opts = TextEncoder_encode header @ data @ TextEncoder_encode trailer
       \<and> take (length data) (drop (length (TextEncoder_encode header)) (body opts)) = data)"
  by (simp add: getTranscriptionWhisperASR_options_def concatenated_def pre_string_def
      post_string_def randomBoundaryString_def Let_def)

text \<open>The same at a sixteen-character boundary and a four-byte file.\<close>

theorem whisperASR_body_framing_witness:
  "contentType (getTranscriptionWhisperASR_options DEFAULT_SETTINGS ''0123456789abcdef''
       [0x52, 0x49, 0x46, 0x46])
     = ''multipart/form-data; boundary=----Boundary0123456789abcdef''
   \<and> body (getTranscriptionWhisperASR_options DEFAULT_SETTINGS ''0123456789abcdef''
       [0x52, 0x49, 0x46, 0x46])
     = TextEncoder_encode
         (''------Boundary0123456789abcdef'' @ CRLF
          @ ''Content-Disposition: form-data; name='' @ DQ @ ''audio_file'' @ DQ
          @ ''; filename='' @ DQ @ ''blob'' @ DQ @ CRLF
          @ ''Content-Type: '' @ DQ @ ''application/octet-stream'' @ DQ @ CRLF @ CRLF)
       @ [0x52, 0x49, 0x46, 0x46]
       @ TextEncoder_encode (CRLF @ ''------Boundary0123456789abcdef--'')"
  using whisperASR_body_framing
    [of DEFAULT_SETTINGS "''0123456789abcdef''" "[0x52, 0x49, 0x46, 0x46]"]
  by (simp add: Let_def)

section \<open>The insertion point\<close>

text \<open>
  C2 as stated fails: \<open>indexOf\<close> finds the first occurrence of the citation.  In a text
  with the citation at positions 0 and 14 the insertion point is 9, and the point
  behind the last occurrence is 23.
\<close>

theorem insertion_point_counterexample:
  "startReplacementIndex ''[[a.mp3]] and [[a.mp3]]'' (fileLinkStringTagged ''a.mp3'') = 9
   \<and> spec_lastIndexOf ''[[a.mp3]] and [[a.mp3]]'' (fileLinkStringTagged ''a.mp3'')
        + int (length (fileLinkStringTagged ''a.mp3'')) = 23
   \<and> startReplacementIndex ''[[a.mp3]] and [[a.mp3]]'' (fileLinkStringTagged ''a.mp3'')
       \<noteq> spec_lastIndexOf ''[[a.mp3]] and [[a.mp3]]'' (fileLinkStringTagged ''a.mp3'')
           + int (length (fileLinkStringTagged ''a.mp3''))"
  by (simp add: startReplacementIndex_def fileLinkStringTagged_def indexOf_def
      spec_lastIndexOf_def upt_rec)

text \<open>
  C2, amended.  When the text that \<open>vault.read\<close> resolves to at completion time is
  \<open>pre @ cit @ post\<close>, with \<open>cit\<close> the citation \<open>[[linktext]]\<close> of the reference and no
  occurrence of \<open>cit\<close> starting inside \<open>pre\<close> (so this is its first occurrence), the
  insertion point is the position right behind that first occurrence, and the text
  handed to \<open>vault.modify\<close> has the transcript spliced in there.
\<close>

theorem insertion_after_first_occurrence:
  assumes "vault_read h = Inr fileText"
    and "cit = fileLinkStringTagged (fileToLinktext h fileToTranscribe (path view_file))"
    and "fileText = pre @ cit @ post"
    and "\<forall>j<length pre. \<not> prefix cit (drop j fileText)"
  shows "startReplacementIndex fileText cit = int (length pre) + int (length cit)
         \<and> Modify (path view_file) (pre @ cit @ LF @ segments_text transcription @ post)
             \<in> set (completion settings h view_file fileToTranscribe (Inr transcription))"
  using startReplacementIndex_first [OF assms(3,4)] splice_first [OF assms(3,4)]
    completion_modify [OF assms(1), of view_file fileToTranscribe transcription settings] assms(2)
  by simp

text \<open>A text with two occurrences of the citation: the point is behind the first.\<close>

theorem insertion_after_first_occurrence_witness:
  "vault_read (host_reading ''a ![[Recording.webm]] b ![[Recording.webm]] c'')
       = Inr (''a !'' @ ''[[Recording.webm]]'' @ '' b ![[Recording.webm]] c'')
   \<and> ''[[Recording.webm]]'' = fileLinkStringTagged
         (fileToLinktext (host_reading ''a ![[Recording.webm]] b ![[Recording.webm]] c'')
            recording (path monday))
   \<and> \<not> (\<exists>j<length ''a !''. prefix ''[[Recording.webm]]''
          (drop j (''a !'' @ ''[[Recording.webm]]'' @ '' b ![[Recording.webm]] c'')))
   \<and> startReplacementIndex (''a !'' @ ''[[Recording.webm]]'' @ '' b ![[Recording.webm]] c'')
        ''[[Recording.webm]]'' = 21
   \<and> Modify (path monday)
        (''a !'' @ ''[[Recording.webm]]'' @ LF @ segments_text hello_world
           @ '' b ![[Recording.webm]] c'')
       \<in> set (completion DEFAULT_SETTINGS
                 (host_reading ''a ![[Recording.webm]] b ![[Recording.webm]] c'')
                 monday recording (Inr hello_world))"
proof -
  have r: "vault_read (host_reading ''a ![[Recording.webm]] b ![[Recording.webm]] c'')
       = Inr (''a !'' @ ''[[Recording.webm]]'' @ '' b ![[Recording.webm]] c'')"
    by (simp add: host_reading_def)
  have c: "''[[Recording.webm]]'' = fileLinkStringTagged
         (fileToLinktext (host_reading ''a ![[Recording.webm]] b ![[Recording.webm]] c'')
            recording (path monday))"
    by (simp add: host_reading_def fileLinkStringTagged_def recording_def)
  have f: "\<forall>j<length ''a !''. \<not> prefix ''[[Recording.webm]]''
          (drop j (''a !'' @ ''[[Recording.webm]]'' @ '' b ![[Recording.webm]] c''))"
    by (simp add: less_Suc_eq)
  note th = insertion_after_first_occurrence
    [OF r c refl f, where transcription = hello_world and settings = DEFAULT_SETTINGS]
  have i: "startReplacementIndex (''a !'' @ ''[[Recording.webm]]'' @ '' b ![[Recording.webm]] c'')
        ''[[Recording.webm]]'' = 21"
    using th by simp
  have m: "Modify (path monday)
        (''a !'' @ ''[[Recording.webm]]'' @ LF @ segments_text hello_world
           @ '' b ![[Recording.webm]] c'')
       \<in> set (completion DEFAULT_SETTINGS
                 (host_reading ''a ![[Recording.webm]] b ![[Recording.webm]] c'')
                 monday recording (Inr hello_world))"
    using th by simp
  have f': "\<not> (\<exists>j<length ''a !''. prefix ''[[Recording.webm]]''
          (drop j (''a !'' @ ''[[Recording.webm]]'' @ '' b ![[Recording.webm]] c'')))"
    using f by blast
  show ?thesis by (intro conjI r c f' i m)
qed

section \<open>The sidecar file\<close>

text \<open>
  C3.  The name of the sidecar is built from \<open>fileLinkString.split(".").pop()\<close>, the piece
  behind the last \<open>.\<close> of the link text: for \<open>Recording.webm\<close> in folder \<open>Files\<close> the
  path is \<open>Files/webm.json\<close>, not \<open>Files/Recording.json\<close>.
\<close>

theorem sidecar_named_by_extension:
  "sidecar_path recording ''Recording.webm'' = ''Files/webm.json''
   \<and> sidecar_path recording ''Recording.webm'' \<noteq> ''Files/Recording.json''"
  by (simp add: sidecar_path_def fileLinkStringJson_def pop_def recording_def Let_def)

section \<open>The candidate list\<close>

text \<open>
  C4 as stated fails: a link whose extension is allowed but whose path the vault does
  not resolve to a file is not in the output.
\<close>

theorem candidates_counterexample:
  "map path (filesToTranscribe DEFAULT_SETTINGS (\<lambda>p. None) [''Files/Recording.webm''])
     \<noteq> spec_candidates (split_js CHR '','' (transcribeFileExtensions DEFAULT_SETTINGS))
         [''Files/Recording.webm'']"
  by (simp add: filesToTranscribe_def collect_def collect_step_def extension_skipped_def
      DEFAULT_SETTINGS_def pop_def includes_js_def debug_log_def spec_candidates_def
      spec_extension_def Let_def)

text \<open>
  C4, amended.  For every setting of the allowed extensions, every vault and every list
  of links whose paths all contain a \<open>.\<close>: the output is, in the order of the list and
  with its duplicates, the file handles of those links whose extension (the substring
  after the final \<open>.\<close>) equals, case-sensitively, a piece of the comma-separated
  setting, and which the vault resolves to a file.
\<close>

theorem candidates_are_resolved_matching_links:
  assumes "\<forall>p\<in>set filesLinked. CHR ''.'' \<in> set p"
  shows "filesToTranscribe settings getAbstractFileByPath filesLinked =
           List.map_filter (resolved_file getAbstractFileByPath)
             (spec_candidates (split_js CHR '','' (transcribeFileExtensions settings)) filesLinked)"
proof -
  have "List.map_filter
          (\<lambda>p. if extension_skipped settings (pop (split_js CHR ''.'' p)) then None
               else resolved_file getAbstractFileByPath p) filesLinked
      = List.map_filter
          (\<lambda>p. if (case spec_extension p of None \<Rightarrow> False
                    | Some e \<Rightarrow> e \<in> set (split_js CHR '','' (transcribeFileExtensions settings)))
               then resolved_file getAbstractFileByPath p else None) filesLinked"
    by (rule map_filter_cong_set) (simp add: assms candidate_selector)
  then show ?thesis
    by (simp add: filesToTranscribe_map_filter spec_candidates_def map_filter_filter)
qed

text \<open>Four links, one of them twice, one with another extension, one that does not resolve.\<close>

theorem candidates_are_resolved_matching_links_witness:
  "list_all (\<lambda>p. CHR ''.'' \<in> set p)
       [''Files/Recording.webm'', ''Notes/Other.md'', ''Files/Recording.webm'', ''Gone.wav'']
   \<and> filesToTranscribe DEFAULT_SETTINGS (vault_with recording)
        [''Files/Recording.webm'', ''Notes/Other.md'', ''Files/Recording.webm'', ''Gone.wav'']
       = [recording, recording]"
proof -
  have d: "\<forall>p\<in>set [''Files/Recording.webm'', ''Notes/Other.md'', ''Files/Recording.webm'',
                ''Gone.wav'']. CHR ''.'' \<in> set p"
    by simp
  have "filesToTranscribe DEFAULT_SETTINGS (vault_with recording)
        [''Files/Recording.webm'', ''Notes/Other.md'', ''Files/Recording.webm'', ''Gone.wav'']
       = [recording, recording]"
    using candidates_are_resolved_matching_links
      [OF d, where settings = DEFAULT_SETTINGS
         and getAbstractFileByPath = "vault_with recording"]
    by (simp add: spec_candidates_def spec_extension_def DEFAULT_SETTINGS_def resolved_file_def
        vault_with_def recording_def)
  with d show ?thesis by (simp add: list_all_iff)
qed

text \<open>
  C5.  A path without \<open>.\<close> is split into the single piece that is the path itself, so
  \<open>pop\<close> never yields \<open>undefined\<close> and the first half of the test never fires: with the
  default setting \<open>mp3,wav,webm\<close>, the link to a file named \<open>mp3\<close> is kept as a
  candidate.
\<close>

theorem extensionless_link_kept:
  "filesToTranscribe DEFAULT_SETTINGS (vault_with mp3_file) [''mp3''] = [mp3_file]"
  by (simp add: filesToTranscribe_def collect_def collect_step_def extension_skipped_def
      DEFAULT_SETTINGS_def pop_def includes_js_def debug_log_def vault_with_def mp3_file_def Let_def)

section \<open>The failure notice\<close>

text \<open>
  C6 as stated fails: outside debug mode the notice is the fixed sentence, in which the
  name of the failing file does not occur.
\<close>

theorem failure_notice_counterexample:
  "completion DEFAULT_SETTINGS (host_reading ''![[Recording.webm]]'') monday recording (Inl ''timeout'')
     = [Notice ''Error transcribing file, enable debug mode to see more'']
   \<and> \<not> sublist (name recording) ''Error transcribing file, enable debug mode to see more''"
  by (simp add: completion_def onRejected_def DEFAULT_SETTINGS_def recording_def sublist_code(3))

text \<open>
  C6, amended.  When the transcription of a reference is rejected, exactly one notice is
  shown.  In debug mode it is \<open>Error transcribing file <name>: <error>\<close>, with the name
  of the failing file and the error; otherwise it is the fixed sentence
  \<open>Error transcribing file, enable debug mode to see more\<close>, whatever the file and the
  error.
\<close>

theorem failure_notice:
  "completion (settings\<lparr>debug := True\<rparr>) h view_file fileToTranscribe (Inl error)
     = [Notice (''Error transcribing file '' @ name fileToTranscribe @ '': '' @ error)]
   \<and> completion (settings\<lparr>debug := False\<rparr>) h view_file fileToTranscribe (Inl error)
     = [Notice ''Error transcribing file, enable debug mode to see more'']"
  by (simp add: completion_def onRejected_def)

text \<open>The two notices for the example recording and the error \<open>timeout\<close>.\<close>

theorem failure_notice_witness:
  "completion (DEFAULT_SETTINGS\<lparr>debug := True\<rparr>) (host_reading ''![[Recording.webm]]'') monday
       recording (Inl ''timeout'')
     = [Notice ''Error transcribing file Recording.webm: timeout'']
   \<and> completion (DEFAULT_SETTINGS\<lparr>debug := False\<rparr>) (host_reading ''![[Recording.webm]]'') monday
       recording (Inl ''timeout'')
     = [Notice ''Error transcribing file, enable debug mode to see more'']"
  using failure_notice
    [of DEFAULT_SETTINGS "host_reading ''![[Recording.webm]]''" monday recording "''timeout''"]
  by (simp add: recording_def)

section \<open>The inserted text\<close>

text \<open>
  C7 as stated fails: the text put behind the citation starts with a line feed.  For the
  note \<open>See ![[Recording.webm]] today\<close> the new text has \<open>LF Hello LF world\<close> behind
  the citation, which is not the text with \<open>Hello LF world\<close> directly behind it.
\<close>

theorem inserted_text_counterexample:
  "completion DEFAULT_SETTINGS (host_reading ''See ![[Recording.webm]] today'') monday recording
       (Inr hello_world)
     = [Modify ''Notes/Monday.md''
          (''See ![[Recording.webm]]'' @ LF @ ''Hello'' @ LF @ ''world'' @ '' today''),
        CreateBinary ''Files/webm.json'' (TextEncoder_encode ''{}'')]
   \<and> ''See ![[Recording.webm]]'' @ LF @ ''Hello'' @ LF @ ''world'' @ '' today''
       \<noteq> ''See ![[Recording.webm]]'' @ ''Hello'' @ LF @ ''world'' @ '' today''"
proof -
  have n: "name recording = ''Recording.webm''" "path monday = ''Notes/Monday.md''"
    by (simp_all add: recording_def monday_def)
  have "completion DEFAULT_SETTINGS (host_reading ''See ![[Recording.webm]] today'') monday recording
       (Inr hello_world)
     = [Modify ''Notes/Monday.md''
          (''See ![[Recording.webm]]'' @ LF @ ''Hello'' @ LF @ ''world'' @ '' today''),
        CreateBinary ''Files/webm.json'' (TextEncoder_encode ''{}'')]"
    by (simp add: completion_def onFulfilled_def DEFAULT_SETTINGS_def host_reading_def n segments_text_hello_world
        startReplacementIndex_example splice_example sidecar_path_example Let_def)
  moreover have "''See ![[Recording.webm]]'' @ LF @ ''Hello'' @ LF @ ''world'' @ '' today''
       \<noteq> ''See ![[Recording.webm]]'' @ ''Hello'' @ LF @ ''world'' @ '' today''"
    by (simp add: LF_def)
  ultimately show ?thesis by simp
qed

text \<open>
  C7, amended.  For a transcription whose segments have the texts \<open>"Hello"\<close> and
  \<open>" world "\<close>, the joined transcript is \<open>Hello LF world\<close> (each text trimmed, one line
  feed between them), and the text inserted right behind the first occurrence of the
  citation is a line feed followed by that transcript.
\<close>

theorem inserted_text_two_segments:
  assumes "map text_seg (segments transcription) = [''Hello'', '' world '']"
    and "vault_read h = Inr fileText"
    and "cit = fileLinkStringTagged (fileToLinktext h fileToTranscribe (path view_file))"
    and "fileText = pre @ cit @ post"
    and "\<forall>j<length pre. \<not> prefix cit (drop j fileText)"
  shows "segments_text transcription = ''Hello'' @ LF @ ''world''
         \<and> Modify (path view_file) (pre @ cit @ (LF @ ''Hello'' @ LF @ ''world'') @ post)
             \<in> set (completion settings h view_file fileToTranscribe (Inr transcription))"
proof -
  obtain s1 s2 where s: "segments transcription = [s1, s2]"
    "text_seg s1 = ''Hello''" "text_seg s2 = '' world ''"
    using assms(1) by auto
  have t: "segments_text transcription = ''Hello'' @ LF @ ''world''"
    by (simp add: segments_text_def s trim_def is_white_space_def)
  from splice_first [OF assms(4,5), of "segments_text transcription"]
    completion_modify [OF assms(2), of view_file fileToTranscribe transcription settings]
    assms(3) t
  show ?thesis by simp
qed

text \<open>The example note and the example transcription.\<close>

theorem inserted_text_two_segments_witness:
  "map text_seg (segments hello_world) = [''Hello'', '' world '']
   \<and> vault_read (host_reading ''See ![[Recording.webm]] today'')
       = Inr (''See !'' @ ''[[Recording.webm]]'' @ '' today'')
   \<and> ''[[Recording.webm]]'' = fileLinkStringTagged
         (fileToLinktext (host_reading ''See ![[Recording.webm]] today'') recording (path monday))
   \<and> \<not> (\<exists>j<length ''See !''. prefix ''[[Recording.webm]]''
          (drop j (''See !'' @ ''[[Recording.webm]]'' @ '' today'')))
   \<and> Modify (path monday)
        (''See !'' @ ''[[Recording.webm]]'' @ (LF @ ''Hello'' @ LF @ ''world'') @ '' today'')
       \<in> set (completion DEFAULT_SETTINGS (host_reading ''See ![[Recording.webm]] today'')
                 monday recording (Inr hello_world))"
proof -
  have a: "map text_seg (segments hello_world) = [''Hello'', '' world '']"
    by (simp add: hello_world_def segment_with_text_def)
  have r: "vault_read (host_reading ''See ![[Recording.webm]] today'')
       = Inr (''See !'' @ ''[[Recording.webm]]'' @ '' today'')"
    by (simp add: host_reading_def)
  have c: "''[[Recording.webm]]'' = fileLinkStringTagged
         (fileToLinktext (host_reading ''See ![[Recording.webm]] today'') recording (path monday))"
    by (simp add: host_reading_def fileLinkStringTagged_def recording_def)
  have f: "\<forall>j<length ''See !''. \<not> prefix ''[[Recording.webm]]''
          (drop j (''See !'' @ ''[[Recording.webm]]'' @ '' today''))"
    by (simp add: less_Suc_eq)
  have f': "\<not> (\<exists>j<length ''See !''. prefix ''[[Recording.webm]]''
          (drop j (''See !'' @ ''[[Recording.webm]]'' @ '' today'')))"
    using f by blast
  have m: "Modify (path monday)
        (''See !'' @ ''[[Recording.webm]]'' @ (LF @ ''Hello'' @ LF @ ''world'') @ '' today'')
       \<in> set (completion DEFAULT_SETTINGS (host_reading ''See ![[Recording.webm]] today'')
                 monday recording (Inr hello_world))"
    using inserted_text_two_segments [OF a r c refl f, where settings = DEFAULT_SETTINGS]
    by simp
  show ?thesis by (intro conjI a r c f' m)
qed

section \<open>A text without the citation\<close>

text \<open>
  C10.  When the text read at completion time does not contain the citation
  \<open>[[linktext]]\<close>, \<open>indexOf\<close> is \<open>-1\<close> and the insertion point is the length of the
  citation minus 1.  The callback still calls \<open>vault.modify\<close>, with the transcript
  spliced in at that position, and when the host calls resolve no notice is shown.
\<close>

theorem citation_absent_still_spliced:
  assumes "vault_read h = Inr fileText"
    and "cit = fileLinkStringTagged (fileToLinktext h fileToTranscribe (path view_file))"
    and "\<not> sublist cit fileText"
  shows "startReplacementIndex fileText cit = int (length cit) - 1
         \<and> Modify (path view_file)
              (take (length cit - 1) fileText @ LF @ segments_text transcription
                 @ drop (length cit - 1) fileText)
             \<in> set (completion settings h view_file fileToTranscribe (Inr transcription))
         \<and> (vault_modify h = None \<and> vault_createBinary h = None \<longrightarrow>
              (\<forall>m. Notice m
                 \<notin> set (completion settings h view_file fileToTranscribe (Inr transcription))))"
proof -
  have i: "startReplacementIndex fileText cit = int (length cit) - 1"
    using assms(3) by (rule startReplacementIndex_absent)
  have "0 < length cit" using assms(2) by (simp add: length_fileLinkStringTagged)
  then have n: "nat (int (length cit) - 1) = length cit - 1" "0 \<le> int (length cit) - 1"
    by simp_all
  have "splice fileText (startReplacementIndex fileText cit) (segments_text transcription)
      = take (length cit - 1) fileText @ LF @ segments_text transcription
          @ drop (length cit - 1) fileText"
    unfolding i using splice_nonneg [OF n(2), of fileText "segments_text transcription"]
    by (simp only: n(1))
  with completion_modify [OF assms(1), of view_file fileToTranscribe transcription settings]
    assms(2)
  have m: "Modify (path view_file)
              (take (length cit - 1) fileText @ LF @ segments_text transcription
                 @ drop (length cit - 1) fileText)
             \<in> set (completion settings h view_file fileToTranscribe (Inr transcription))"
    by simp
  from i m completion_no_notice [OF assms(1)] show ?thesis by blast
qed

text \<open>A note of 21 characters without the citation of 18 characters: the splice is at 17.\<close>

theorem citation_absent_still_spliced_witness:
  "vault_read (host_reading ''Monday notes, no link'') = Inr ''Monday notes, no link''
   \<and> ''[[Recording.webm]]'' = fileLinkStringTagged
         (fileToLinktext (host_reading ''Monday notes, no link'') recording (path monday))
   \<and> \<not> sublist ''[[Recording.webm]]'' ''Monday notes, no link''
   \<and> vault_modify (host_reading ''Monday notes, no link'') = None
   \<and> vault_createBinary (host_reading ''Monday notes, no link'') = None
   \<and> startReplacementIndex ''Monday notes, no link'' ''[[Recording.webm]]'' = 17
   \<and> Modify (path monday) (''Monday notes, no '' @ LF @ ''Hello'' @ LF @ ''world'' @ ''link'')
       \<in> set (completion DEFAULT_SETTINGS (host_reading ''Monday notes, no link'') monday
                 recording (Inr hello_world))
   \<and> (\<forall>m. Notice m
         \<notin> set (completion DEFAULT_SETTINGS (host_reading ''Monday notes, no link'') monday
                   recording (Inr hello_world)))"
proof -
  have r: "vault_read (host_reading ''Monday notes, no link'') = Inr ''Monday notes, no link''"
    by (simp add: host_reading_def)
  have c: "''[[Recording.webm]]'' = fileLinkStringTagged
         (fileToLinktext (host_reading ''Monday notes, no link'') recording (path monday))"
    by (simp add: host_reading_def fileLinkStringTagged_def recording_def)
  have a: "\<not> sublist ''[[Recording.webm]]'' ''Monday notes, no link''"
    by (simp add: sublist_code(3))
  have ok: "vault_modify (host_reading ''Monday notes, no link'') = None"
    "vault_createBinary (host_reading ''Monday notes, no link'') = None"
    by (simp_all add: host_reading_def)
  have t: "segments_text hello_world = ''Hello'' @ LF @ ''world''"
    by (simp add: segments_text_def hello_world_def segment_with_text_def trim_def
        is_white_space_def)
  note th = citation_absent_still_spliced
    [OF r c a, where transcription = hello_world and settings = DEFAULT_SETTINGS]
  have i: "startReplacementIndex ''Monday notes, no link'' ''[[Recording.webm]]'' = 17"
    using th by simp
  have m: "Modify (path monday) (''Monday notes, no '' @ LF @ ''Hello'' @ LF @ ''world'' @ ''link'')
       \<in> set (completion DEFAULT_SETTINGS (host_reading ''Monday notes, no link'') monday
                 recording (Inr hello_world))"
    using th t by simp
  have n: "\<forall>m. Notice m
         \<notin> set (completion DEFAULT_SETTINGS (host_reading ''Monday notes, no link'') monday
                   recording (Inr hello_world))"
    using th ok by blast
  show ?thesis by (intro conjI r c a ok i m n)
qed

end
